theory Spec2Isabelle
  imports Complex_Main "HOL-Library.Product_Lexorder"
begin

section \<open>Client utilities: \<open>frontend/src/app/modules/utils.ts\<close>\<close>

subsection \<open>\<open>filterByDayWaterLevel\<close>\<close>

text \<open>
  The warning collection the client receives is a GeoJSON feature collection. Its members are
  typed \<open>any\<close> in the source, so a member is a value of an arbitrary type \<open>'v\<close>, or
  \<open>None\<close> for JavaScript's \<open>undefined\<close> (a member that is absent). The properties of a
  feature are an object read by key: a partial map from keys to values, where reading an
  absent key gives \<open>undefined\<close>. The callback's parameter type makes \<open>properties\<close> an
  object, never \<open>null\<close>.

  The fields \<open>type\<close> and \<open>id\<close> of the source are \<open>ftype\<close> and \<open>fid\<close> here
  (\<open>gtype\<close> for the collection's \<open>type\<close>); the members of the returned objects carry
  the prefix \<open>out_\<close> or stand in the record \<open>alert_properties\<close>.
\<close>

record 'v feature =
  ftype :: "'v option"
  fid :: "'v option"
  properties :: "string \<Rightarrow> 'v option"
  geometry :: "'v option"
  bbox :: "'v option"

record 'v geojson =
  gtype :: "'v option"
  features :: "'v feature list"

record 'v alert_properties =
  hydroweb :: "'v option"
  reachid :: "'v option"
  basin :: "'v option"
  river :: "'v option"
  name :: "'v option"
  latitude :: "'v option"
  longitude :: "'v option"
  state :: "'v option"
  country :: "'v option"
  datetime :: "'v option"
  alert :: "'v option"

record 'v alert_feature =
  out_ftype :: "'v option"
  out_fid :: "'v option"
  out_properties :: "'v alert_properties"
  out_geometry :: "'v option"
  out_bbox :: "'v option"

record 'v alert_geojson =
  out_gtype :: "'v option"
  out_features :: "'v alert_feature list"

definition filterByDayWaterLevel :: "'v geojson \<Rightarrow> string \<Rightarrow> 'v alert_geojson" where
  "filterByDayWaterLevel g propertyKey =
     \<lparr> out_gtype = gtype g,
       out_features = map (\<lambda>f.
         \<lparr> out_ftype = ftype f,
           out_fid = fid f,
           out_properties =
             \<lparr> hydroweb = properties f ''hydroweb'',
               reachid = properties f ''reachid'',
               basin = properties f ''basin'',
               river = properties f ''river'',
               name = properties f ''name'',
               latitude = properties f ''latitude'',
               longitude = properties f ''longitude'',
               state = properties f ''state'',
               country = properties f ''country'',
               datetime = properties f ''datetime'',
               alert = properties f propertyKey \<rparr>,
           out_geometry = geometry f,
           out_bbox = bbox f \<rparr>) (features g) \<rparr>"

text \<open>A warning collection of two stations, as the alerts endpoint returns it.\<close>

definition example_warnings :: "string geojson" where
  "example_warnings =
     \<lparr> gtype = Some ''FeatureCollection'',
       features =
         [ \<lparr> ftype = Some ''Feature'', fid = Some ''0'',
             properties = [''hydroweb'' \<mapsto> ''R_AMAZONAS_KM0950'', ''reachid'' \<mapsto> ''620964965'',
                           ''wd01'' \<mapsto> ''R0'', ''wd02'' \<mapsto> ''R2''],
             geometry = Some ''Point(-60.1 -3.2)'', bbox = None \<rparr>,
           \<lparr> ftype = Some ''Feature'', fid = Some ''1'',
             properties = [''hydroweb'' \<mapsto> ''R_NILE_KM1200'', ''name'' \<mapsto> ''Nile'',
                           ''wd01'' \<mapsto> ''R5'', ''wd02'' \<mapsto> ''R25''],
             geometry = Some ''Point(31.2 30.0)'', bbox = None \<rparr> ] \<rparr>"

text \<open>What the claim calls the fixed station-metadata fields, read off one input feature.\<close>

definition station_fields_kept :: "'v feature \<Rightarrow> 'v alert_properties \<Rightarrow> bool" where
  "station_fields_kept f p \<longleftrightarrow>
     hydroweb p = properties f ''hydroweb'' \<and> reachid p = properties f ''reachid'' \<and>
     basin p = properties f ''basin'' \<and> river p = properties f ''river'' \<and>
     name p = properties f ''name'' \<and> latitude p = properties f ''latitude'' \<and>
     longitude p = properties f ''longitude'' \<and> state p = properties f ''state'' \<and>
     country p = properties f ''country'' \<and> datetime p = properties f ''datetime''"

text \<open>
  Claim C9. For every feature collection \<open>g\<close> and property key \<open>k\<close>,
  \<open>filterByDayWaterLevel g k\<close> keeps the collection's type and has as many features as
  \<open>g\<close>, in the same order: the feature at every position \<open>i\<close> keeps the type, id, geometry
  and bbox of the input feature at \<open>i\<close>, its properties hold the ten station-metadata fields
  of that feature, and its \<open>alert\<close> is that feature's value at key \<open>k\<close>.
\<close>

theorem filterByDayWaterLevel_features:
  "out_gtype (filterByDayWaterLevel g k) = gtype g \<and>
   length (out_features (filterByDayWaterLevel g k)) = length (features g) \<and>
   (\<forall>i < length (features g).
      out_ftype (out_features (filterByDayWaterLevel g k) ! i) = ftype (features g ! i) \<and>
      out_fid (out_features (filterByDayWaterLevel g k) ! i) = fid (features g ! i) \<and>
      out_geometry (out_features (filterByDayWaterLevel g k) ! i) = geometry (features g ! i) \<and>
      out_bbox (out_features (filterByDayWaterLevel g k) ! i) = bbox (features g ! i) \<and>
      station_fields_kept (features g ! i)
        (out_properties (out_features (filterByDayWaterLevel g k) ! i)) \<and>
      alert (out_properties (out_features (filterByDayWaterLevel g k) ! i)) =
        properties (features g ! i) k)"
  by (simp add: filterByDayWaterLevel_def station_fields_kept_def)

theorem filterByDayWaterLevel_features_witness:
  "length (out_features (filterByDayWaterLevel example_warnings ''wd02'')) = 2 \<and>
   out_fid (out_features (filterByDayWaterLevel example_warnings ''wd02'') ! 1) = Some ''1'' \<and>
   hydroweb (out_properties (out_features (filterByDayWaterLevel example_warnings ''wd02'') ! 1))
     = Some ''R_NILE_KM1200'' \<and>
   basin (out_properties (out_features (filterByDayWaterLevel example_warnings ''wd02'') ! 1))
     = None \<and>
   alert (out_properties (out_features (filterByDayWaterLevel example_warnings ''wd02'') ! 1))
     = Some ''R25''"
proof -
  have n: "length (features example_warnings) = 2" and i: "(1::nat) < length (features example_warnings)"
    by (simp_all add: example_warnings_def)
  have f: "features example_warnings ! 1 = \<lparr> ftype = Some ''Feature'', fid = Some ''1'',
             properties = [''hydroweb'' \<mapsto> ''R_NILE_KM1200'', ''name'' \<mapsto> ''Nile'',
                           ''wd01'' \<mapsto> ''R5'', ''wd02'' \<mapsto> ''R25''],
             geometry = Some ''Point(31.2 30.0)'', bbox = None \<rparr>"
    by (simp add: example_warnings_def)
  from filterByDayWaterLevel_features [of example_warnings "''wd02''"] n i f
  show ?thesis
    by (simp add: station_fields_kept_def)
qed

section \<open>The forecast date range: \<open>getDateRangeGeoglows\<close>\<close>

text \<open>
  \<open>getDateRangeGeoglows\<close> of \<open>utils.ts\<close> works on JavaScript \<open>Date\<close> objects, so the
  model starts with the operations of ECMA-262 (21.4.1) that the methods it calls are
  defined by. The time value of a \<open>Date\<close> is a number of milliseconds since the epoch,
  or \<open>NaN\<close> for an invalid date: an \<open>int option\<close>, with \<open>None\<close> for \<open>NaN\<close>. Integer
  division in HOL rounds down, as \<open>floor\<close> does in the standard.
\<close>

subsection \<open>Days, years, months (ECMA-262, 21.4.1.3 to 21.4.1.12)\<close>

definition msPerDay :: int where
  "msPerDay = 86400000"

definition Day :: "int \<Rightarrow> int" where
  "Day t = t div msPerDay"

definition TimeWithinDay :: "int \<Rightarrow> int" where
  "TimeWithinDay t = t mod msPerDay"

definition DaysInYear :: "int \<Rightarrow> int" where
  "DaysInYear y =
     (if y mod 4 \<noteq> 0 then 365 else if y mod 100 \<noteq> 0 then 366
      else if y mod 400 \<noteq> 0 then 365 else 366)"

definition DayFromYear :: "int \<Rightarrow> int" where
  "DayFromYear y =
     365 * (y - 1970) + (y - 1969) div 4 - (y - 1901) div 100 + (y - 1601) div 400"

text \<open>
  \<open>YearFromTime t\<close> is the largest \<open>y\<close> with \<open>TimeFromYear y \<le> t\<close>. It is computed
  from an estimate of the year, which is never off by more than one;
  \<open>YearFromDay_bounds\<close> and \<open>YearFromDay_greatest\<close> below prove that the result is the
  year the standard defines.
\<close>

definition YearFromDay :: "int \<Rightarrow> int" where
  "YearFromDay d =
     (let y = 1970 + (400 * d) div 146097 in
      if DayFromYear (y + 1) \<le> d then y + 1
      else if DayFromYear y \<le> d then y
      else y - 1)"

definition YearFromTime :: "int \<Rightarrow> int" where
  "YearFromTime t = YearFromDay (Day t)"

definition InLeapYear :: "int \<Rightarrow> int" where
  "InLeapYear t = (if DaysInYear (YearFromTime t) = 366 then 1 else 0)"

definition DayWithinYear :: "int \<Rightarrow> int" where
  "DayWithinYear t = Day t - DayFromYear (YearFromTime t)"

text \<open>
  The month and the day of the month are read off the day within the year by the tables of
  ECMA-262 (21.4.1.11 and 21.4.1.12), where \<open>l\<close> is 1 in a leap year and 0 otherwise.
\<close>

definition month_in_year :: "int \<Rightarrow> int \<Rightarrow> int" where
  "month_in_year d l =
     (if d < 31 then 0
      else if d < 59 + l then 1
      else if d < 90 + l then 2
      else if d < 120 + l then 3
      else if d < 151 + l then 4
      else if d < 181 + l then 5
      else if d < 212 + l then 6
      else if d < 243 + l then 7
      else if d < 273 + l then 8
      else if d < 304 + l then 9
      else if d < 334 + l then 10
      else 11)"

definition date_in_year :: "int \<Rightarrow> int \<Rightarrow> int" where
  "date_in_year d l =
     (let m = month_in_year d l in
      if m = 0 then d + 1
      else if m = 1 then d - 30
      else if m = 2 then d - 58 - l
      else if m = 3 then d - 89 - l
      else if m = 4 then d - 119 - l
      else if m = 5 then d - 150 - l
      else if m = 6 then d - 180 - l
      else if m = 7 then d - 211 - l
      else if m = 8 then d - 242 - l
      else if m = 9 then d - 272 - l
      else if m = 10 then d - 303 - l
      else d - 333 - l)"

definition MonthFromTime :: "int \<Rightarrow> int" where
  "MonthFromTime t = month_in_year (DayWithinYear t) (InLeapYear t)"

definition DateFromTime :: "int \<Rightarrow> int" where
  "DateFromTime t = date_in_year (DayWithinYear t) (InLeapYear t)"

text \<open>
  \<open>MakeDay\<close> asks for the time value \<open>t\<close> of the first day of month \<open>mn\<close> of year
  \<open>ym\<close>; \<open>first_day_of_month\<close> is the day within the year on which a month starts, so
  \<open>Day t\<close> is \<open>DayFromYear ym + first_day_of_month l mn\<close>. Where the standard's
  \<open>MakeDay\<close> gives \<open>NaN\<close> because that time value is out of range, the range is
  checked here by \<open>TimeClip\<close>, at the end of \<open>setDate\<close>.
\<close>

definition first_day_of_month :: "int \<Rightarrow> int \<Rightarrow> int" where
  "first_day_of_month l m =
     (if m = 0 then 0
      else if m = 1 then 31
      else if m = 2 then 59 + l
      else if m = 3 then 90 + l
      else if m = 4 then 120 + l
      else if m = 5 then 151 + l
      else if m = 6 then 181 + l
      else if m = 7 then 212 + l
      else if m = 8 then 243 + l
      else if m = 9 then 273 + l
      else if m = 10 then 304 + l
      else 334 + l)"

definition MakeDay :: "int \<Rightarrow> int \<Rightarrow> int \<Rightarrow> int" where
  "MakeDay year month dt =
     (let ym = year + month div 12;
          mn = month mod 12;
          l = (if DaysInYear ym = 366 then 1 else 0)
      in DayFromYear ym + first_day_of_month l mn + dt - 1)"

definition MakeDate :: "int \<Rightarrow> int \<Rightarrow> int" where
  "MakeDate day time = day * msPerDay + time"

definition TimeClip :: "int \<Rightarrow> int option" where
  "TimeClip time = (if \<bar>time\<bar> > 8640000000000000 then None else Some time)"

subsection \<open>Local time (ECMA-262, 21.4.1.25 and 21.4.1.26)\<close>

text \<open>
  The methods the function calls read and set local time. The host's time zone is not part
  of the source: it is a parameter of the model, given by the offset from UTC in force at
  a UTC instant (\<open>LocalTZA(t, true)\<close>) and the offset used to read a local time
  (\<open>LocalTZA(t, false)\<close>).
\<close>

record timezone =
  offset_at_utc :: "int \<Rightarrow> int"
  offset_at_local :: "int \<Rightarrow> int"

definition LocalTime :: "timezone \<Rightarrow> int \<Rightarrow> int" where
  "LocalTime tz t = t + offset_at_utc tz t"

definition UTC :: "timezone \<Rightarrow> int \<Rightarrow> int" where
  "UTC tz t = t - offset_at_local tz t"

definition fixed_zone :: "int \<Rightarrow> timezone" where
  "fixed_zone c = \<lparr> offset_at_utc = (\<lambda>_. c), offset_at_local = (\<lambda>_. c) \<rparr>"

text \<open>
  A zone that moves its clocks forward once, at the instant \<open>T\<close>, from the offset
  \<open>before\<close> to the larger offset \<open>after\<close>. The local times the clocks skip are read
  with the offset before the change, as ECMA-262 (21.4.1.26) requires.
\<close>

definition spring_forward :: "int \<Rightarrow> int \<Rightarrow> int \<Rightarrow> timezone" where
  "spring_forward T before after =
     \<lparr> offset_at_utc = (\<lambda>t. if t < T then before else after),
       offset_at_local = (\<lambda>t. if t < T + after then before else after) \<rparr>"

subsection \<open>The \<open>Date\<close> methods and the function\<close>

text \<open>
  \<open>setDate\<close> returns the new time value of the object it is called on; the source
  calls it on \<open>endDate\<close>, a copy of the start date, and on \<open>currentDate\<close>, so the
  selected date itself is never changed. \<open>currentDate <= endDate\<close> compares the two
  time values and is false when either is \<open>NaN\<close>. The \<open>while\<close> loop has no bound of
  its own, so it is a partial function: \<open>None\<close> stands for a loop that never ends.
\<close>

definition getFullYear :: "timezone \<Rightarrow> int option \<Rightarrow> int option" where
  "getFullYear tz d = map_option (\<lambda>t. YearFromTime (LocalTime tz t)) d"

definition getMonth :: "timezone \<Rightarrow> int option \<Rightarrow> int option" where
  "getMonth tz d = map_option (\<lambda>t. MonthFromTime (LocalTime tz t)) d"

definition getDate :: "timezone \<Rightarrow> int option \<Rightarrow> int option" where
  "getDate tz d = map_option (\<lambda>t. DateFromTime (LocalTime tz t)) d"

definition setDate :: "timezone \<Rightarrow> int option \<Rightarrow> int option \<Rightarrow> int option" where
  "setDate tz d dt =
     (case d of
        None \<Rightarrow> None
      | Some t \<Rightarrow>
          (case dt of
             None \<Rightarrow> None
           | Some n \<Rightarrow>
               (let lt = LocalTime tz t;
                    newDate = MakeDate (MakeDay (YearFromTime lt) (MonthFromTime lt) n)
                                (TimeWithinDay lt)
                in TimeClip (UTC tz newDate))))"

definition less_eq_time :: "int option \<Rightarrow> int option \<Rightarrow> bool" where
  "less_eq_time a b = (case (a, b) of (Some x, Some y) \<Rightarrow> x \<le> y | _ \<Rightarrow> False)"

definition digit_char :: "nat \<Rightarrow> char" where
  "digit_char n =
     (if n = 9 then CHR ''9'' else if n = 8 then CHR ''8'' else if n = 7 then CHR ''7''
      else if n = 6 then CHR ''6'' else if n = 5 then CHR ''5'' else if n = 4 then CHR ''4''
      else if n = 3 then CHR ''3'' else if n = 2 then CHR ''2'' else if n = 1 then CHR ''1''
      else CHR ''0'')"

fun nat_digits :: "nat \<Rightarrow> string" where
  "nat_digits n = (if n < 10 then [digit_char n] else nat_digits (n div 10) @ [digit_char (n mod 10)])"

declare nat_digits.simps [simp del]

definition ToString :: "int option \<Rightarrow> string" where
  "ToString x =
     (case x of
        None \<Rightarrow> ''NaN''
      | Some i \<Rightarrow> if i < 0 then CHR ''-'' # nat_digits (nat (- i)) else nat_digits (nat i))"

definition padStart :: "string \<Rightarrow> nat \<Rightarrow> char \<Rightarrow> string" where
  "padStart s targetLength c = replicate (targetLength - length s) c @ s"

definition date_string :: "timezone \<Rightarrow> int option \<Rightarrow> string" where
  "date_string tz currentDate =
     (let year = getFullYear tz currentDate;
          month = padStart (ToString (map_option (\<lambda>m. m + 1) (getMonth tz currentDate))) 2 CHR ''0'';
          day = padStart (ToString (getDate tz currentDate)) 2 CHR ''0''
      in ToString year @ ''-'' @ month @ ''-'' @ day)"

partial_function (option) date_loop ::
  "timezone \<Rightarrow> int option \<Rightarrow> int option \<Rightarrow> string list \<Rightarrow> string list option" where
  "date_loop tz currentDate endDate result =
     (if less_eq_time currentDate endDate
      then date_loop tz
             (setDate tz currentDate (map_option (\<lambda>d. d + 1) (getDate tz currentDate)))
             endDate (result @ [date_string tz currentDate])
      else Some result)"

definition getDateRangeGeoglows :: "timezone \<Rightarrow> int option \<Rightarrow> string list option" where
  "getDateRangeGeoglows tz selectedDate =
     (let startDate = selectedDate;
          endDate = setDate tz startDate (map_option (\<lambda>d. d + 14) (getDate tz startDate))
      in date_loop tz startDate endDate [])"

text \<open>
  The instants the loop visits, computed with a bound on the number of rounds: \<open>None\<close>
  when the bound is too small. It serves to evaluate the loop on a given date.
\<close>

fun visited :: "nat \<Rightarrow> timezone \<Rightarrow> int option \<Rightarrow> int option \<Rightarrow> int list option" where
  "visited 0 tz currentDate endDate = None"
| "visited (Suc n) tz None endDate = Some []"
| "visited (Suc n) tz (Some u) None = Some []"
| "visited (Suc n) tz (Some u) (Some e) =
     (if u \<le> e
      then map_option ((#) u)
             (visited n tz (TimeClip (UTC tz (LocalTime tz u + msPerDay))) (Some e))
      else Some [])"

subsection \<open>What the claim speaks of: consecutive calendar dates, written \<open>YYYY-MM-DD\<close>\<close>

text \<open>
  The calendar, written without day numbers: \<open>next_date\<close> is the date that follows a
  date, \<open>dates_from d n\<close> the \<open>n\<close> consecutive dates starting at \<open>d\<close>, and
  \<open>iso_date\<close> the ten characters of a date, four digits for the year and two each for
  month and day.
\<close>

definition days_in_month :: "int \<Rightarrow> int \<Rightarrow> int" where
  "days_in_month y m =
     (if m = 2 then (if y mod 4 = 0 \<and> (y mod 100 \<noteq> 0 \<or> y mod 400 = 0) then 29 else 28)
      else if m = 4 \<or> m = 6 \<or> m = 9 \<or> m = 11 then 30 else 31)"

fun next_date :: "int \<times> int \<times> int \<Rightarrow> int \<times> int \<times> int" where
  "next_date (y, m, d) =
     (if d < days_in_month y m then (y, m, d + 1)
      else if m < 12 then (y, m + 1, 1)
      else (y + 1, 1, 1))"

fun dates_from :: "int \<times> int \<times> int \<Rightarrow> nat \<Rightarrow> (int \<times> int \<times> int) list" where
  "dates_from d 0 = []"
| "dates_from d (Suc n) = d # dates_from (next_date d) n"

definition calendar_date :: "int \<Rightarrow> int \<times> int \<times> int" where
  "calendar_date t = (YearFromTime t, MonthFromTime t + 1, DateFromTime t)"

fun iso_date :: "int \<times> int \<times> int \<Rightarrow> string" where
  "iso_date (y, m, d) =
     [digit_char (nat y div 1000 mod 10), digit_char (nat y div 100 mod 10),
      digit_char (nat y div 10 mod 10), digit_char (nat y mod 10), CHR ''-'',
      digit_char (nat m div 10 mod 10), digit_char (nat m mod 10), CHR ''-'',
      digit_char (nat d div 10 mod 10), digit_char (nat d mod 10)]"

subsection \<open>The model's calendar is the Gregorian calendar\<close>

lemma div_bounds:
  fixes a k :: int
  assumes "0 < k"
  shows "k * (a div k) \<le> a" and "a < k * (a div k) + k"
proof -
  have "a = k * (a div k) + a mod k" by simp
  moreover have "0 \<le> a mod k" "a mod k < k" using assms by simp_all
  ultimately show "k * (a div k) \<le> a" and "a < k * (a div k) + k" by linarith+
qed

lemma div_succ:
  fixes a k :: int
  assumes "1 < k"
  shows "(a + 1) div k = a div k + (if (a + 1) mod k = 0 then 1 else 0)"
proof (cases "a mod k = k - 1")
  case True
  have "k * (a div k) + a mod k = a" by simp
  with True have "a + 1 = k * (a div k) + k" by linarith
  then have eq: "a + 1 = k * (a div k + 1)" by (simp add: algebra_simps)
  have "(a + 1) mod k = 0" by (subst eq) simp
  moreover have "(a + 1) div k = a div k + 1" using assms by (subst eq) simp
  ultimately show ?thesis by simp
next
  case False
  have r: "0 \<le> a mod k" "a mod k < k" using assms by simp_all
  with False have lt: "a mod k + 1 < k" by linarith
  have "a + 1 = k * (a div k) + (a mod k + 1)" by simp
  then have d: "(a + 1) div k = a div k" and m: "(a + 1) mod k = a mod k + 1"
    using r lt by (metis add_nonneg_nonneg int_div_pos_eq zero_le_one,
                   metis add_nonneg_nonneg int_mod_pos_eq zero_le_one)
  from m r have "(a + 1) mod k \<noteq> 0" by linarith
  with d show ?thesis by simp
qed

lemma DayFromYear_bounds:
  "146097 * (y - 1970) - 506 \<le> 400 * DayFromYear y"
  "400 * DayFromYear y \<le> 146097 * (y - 1970) + 589"
proof -
  define A B C where "A = (y - 1969) div 4" and "B = (y - 1901) div 100"
    and "C = (y - 1601) div 400"
  have b: "4 * A \<le> y - 1969" "y - 1972 \<le> 4 * A"
       "100 * B \<le> y - 1901" "y - 2000 \<le> 100 * B"
       "400 * C \<le> y - 1601" "y - 2000 \<le> 400 * C"
    using div_bounds [of 4 "y - 1969"] div_bounds [of 100 "y - 1901"]
      div_bounds [of 400 "y - 1601"]
    unfolding A_def B_def C_def by simp_all
  have d: "DayFromYear y = 365 * (y - 1970) + A - B + C"
    by (simp add: DayFromYear_def A_def B_def C_def)
  from b d show "146097 * (y - 1970) - 506 \<le> 400 * DayFromYear y"
    by (simp add: algebra_simps)
  from b d show "400 * DayFromYear y \<le> 146097 * (y - 1970) + 589"
    by (simp add: algebra_simps)
qed

lemma leap_mod:
  fixes y :: int
  shows "(y - 1968) mod 4 = 0 \<longleftrightarrow> y mod 4 = 0"
    and "(y - 1900) mod 100 = 0 \<longleftrightarrow> y mod 100 = 0"
    and "(y - 1600) mod 400 = 0 \<longleftrightarrow> y mod 400 = 0"
proof -
  have "y - 1968 = y + 4 * (- 492)" "y - 1900 = y + 100 * (- 19)" "y - 1600 = y + 400 * (- 4)"
    by simp_all
  then show "(y - 1968) mod 4 = 0 \<longleftrightarrow> y mod 4 = 0"
    and "(y - 1900) mod 100 = 0 \<longleftrightarrow> y mod 100 = 0"
    and "(y - 1600) mod 400 = 0 \<longleftrightarrow> y mod 400 = 0"
    by (metis mod_mult_self2)+
qed

lemma leap_dvd:
  fixes y :: int
  shows "y mod 400 = 0 \<Longrightarrow> y mod 100 = 0" and "y mod 100 = 0 \<Longrightarrow> y mod 4 = 0"
proof -
  have "(100::int) dvd 400" "(4::int) dvd 100" by simp_all
  then show "y mod 400 = 0 \<Longrightarrow> y mod 100 = 0" and "y mod 100 = 0 \<Longrightarrow> y mod 4 = 0"
    by (metis dvd_trans mod_eq_0_iff_dvd)+
qed

lemma DayFromYear_Suc: "DayFromYear (y + 1) = DayFromYear y + DaysInYear y"
proof -
  have a: "(y + 1 - 1969) div 4 = (y - 1969) div 4 + (if y mod 4 = 0 then 1 else 0)"
    using div_succ [of 4 "y - 1969"] leap_mod(1) [of y] by (simp add: algebra_simps)
  have b: "(y + 1 - 1901) div 100 = (y - 1901) div 100 + (if y mod 100 = 0 then 1 else 0)"
    using div_succ [of 100 "y - 1901"] leap_mod(2) [of y] by (simp add: algebra_simps)
  have c: "(y + 1 - 1601) div 400 = (y - 1601) div 400 + (if y mod 400 = 0 then 1 else 0)"
    using div_succ [of 400 "y - 1601"] leap_mod(3) [of y] by (simp add: algebra_simps)
  have "DayFromYear (y + 1) = 365 * (y - 1970) + 365 + (y + 1 - 1969) div 4
      - (y + 1 - 1901) div 100 + (y + 1 - 1601) div 400"
    by (simp add: DayFromYear_def)
  also have "\<dots> = DayFromYear y + DaysInYear y"
    unfolding a b c DayFromYear_def DaysInYear_def using leap_dvd [of y] by auto
  finally show ?thesis .
qed

lemma DaysInYear_cases: "DaysInYear y = 365 \<or> DaysInYear y = 366"
  by (simp add: DaysInYear_def)

lemma DayFromYear_mono: "y \<le> y' \<Longrightarrow> DayFromYear y \<le> DayFromYear y'"
proof (induction y' rule: int_ge_induct)
  case base
  show ?case by simp
next
  case (step i)
  then show ?case
    using DayFromYear_Suc [of i] DaysInYear_cases [of i] by auto
qed

lemma DayFromYear_strict: "y < y' \<Longrightarrow> DayFromYear y < DayFromYear y'"
  using DayFromYear_mono [of "y + 1" y'] DayFromYear_Suc [of y] DaysInYear_cases [of y]
  by auto

text \<open>
  \<open>YearFromDay\<close> is the year ECMA-262 defines: the largest \<open>y\<close> whose first day is not
  after day \<open>d\<close>.
\<close>

lemma YearFromDay_bounds:
  "DayFromYear (YearFromDay d) \<le> d" "d < DayFromYear (YearFromDay d + 1)"
proof -
  define q where "q = (400 * d) div 146097"
  have q: "146097 * q \<le> 400 * d" "400 * d < 146097 * q + 146097"
    unfolding q_def using div_bounds [of 146097 "400 * d"] by simp_all
  have lo: "DayFromYear (1970 + q - 1) \<le> d"
    using DayFromYear_bounds(2) [of "1970 + q - 1"] q by (simp add: algebra_simps)
  have hi: "d < DayFromYear (1970 + q + 2)"
    using DayFromYear_bounds(1) [of "1970 + q + 2"] q by (simp add: algebra_simps)
  have Y: "YearFromDay d =
     (if DayFromYear (1970 + q + 1) \<le> d then 1970 + q + 1
      else if DayFromYear (1970 + q) \<le> d then 1970 + q else 1970 + q - 1)"
    by (simp add: YearFromDay_def q_def Let_def)
  show "DayFromYear (YearFromDay d) \<le> d"
    unfolding Y using lo by auto
  show "d < DayFromYear (YearFromDay d + 1)"
    unfolding Y using hi by (auto simp: algebra_simps)
qed

lemma YearFromDay_unique:
  assumes "DayFromYear y \<le> d" "d < DayFromYear (y + 1)"
  shows "YearFromDay d = y"
proof (rule ccontr)
  assume ne: "YearFromDay d \<noteq> y"
  show False
  proof (cases "YearFromDay d < y")
    case True
    then have "DayFromYear (YearFromDay d + 1) \<le> DayFromYear y"
      by (intro DayFromYear_mono) simp
    with YearFromDay_bounds(2) [of d] assms show False by simp
  next
    case False
    with ne have "DayFromYear (y + 1) \<le> DayFromYear (YearFromDay d)"
      by (intro DayFromYear_mono) simp
    with YearFromDay_bounds(1) [of d] assms show False by simp
  qed
qed

lemma YearFromDay_greatest: "DayFromYear y \<le> d \<Longrightarrow> y \<le> YearFromDay d"
  using DayFromYear_strict [of "YearFromDay d + 1" "y"] YearFromDay_bounds(2) [of d]
    DayFromYear_mono [of "YearFromDay d + 1" y]
  by (cases "y \<le> YearFromDay d") auto

lemma YearFromDay_mono: "d \<le> d' \<Longrightarrow> YearFromDay d \<le> YearFromDay d'"
  using YearFromDay_bounds(1) [of d] by (intro YearFromDay_greatest) simp

lemma DayWithinYear_range: "0 \<le> DayWithinYear t" "DayWithinYear t < 365 + InLeapYear t"
proof -
  show "0 \<le> DayWithinYear t"
    using YearFromDay_bounds(1) [of "Day t"] by (simp add: DayWithinYear_def YearFromTime_def)
  show "DayWithinYear t < 365 + InLeapYear t"
    using YearFromDay_bounds(2) [of "Day t"] DayFromYear_Suc [of "YearFromDay (Day t)"]
      DaysInYear_cases [of "YearFromDay (Day t)"]
    by (auto simp: DayWithinYear_def YearFromTime_def InLeapYear_def)
qed

lemma MonthFromTime_range: "0 \<le> MonthFromTime t" "MonthFromTime t \<le> 11"
  by (simp_all add: MonthFromTime_def month_in_year_def)

lemma DateFromTime_eq:
  "DateFromTime t = DayWithinYear t - first_day_of_month (InLeapYear t) (MonthFromTime t) + 1"
  by (simp add: DateFromTime_def MonthFromTime_def date_in_year_def month_in_year_def
        first_day_of_month_def Let_def)

lemma InLeapYear_cases: "InLeapYear t = 0 \<or> InLeapYear t = 1"
  by (simp add: InLeapYear_def)

lemma DateFromTime_range: "1 \<le> DateFromTime t" "DateFromTime t \<le> 31"
  using DayWithinYear_range [of t] InLeapYear_cases [of t]
  by (auto simp: DateFromTime_def date_in_year_def month_in_year_def Let_def)

lemma Day_next: "Day (t + msPerDay) = Day t + 1"
  by (simp add: Day_def msPerDay_def)

definition month_length :: "int \<Rightarrow> int \<Rightarrow> int" where
  "month_length l m =
     (if m = 1 then 28 + l else if m = 3 \<or> m = 5 \<or> m = 8 \<or> m = 10 then 30 else 31)"

definition step_in_year :: "int \<Rightarrow> int \<Rightarrow> bool" where
  "step_in_year l w \<longleftrightarrow>
     (month_in_year (w + 1) l, date_in_year (w + 1) l) =
     (if date_in_year w l < month_length l (month_in_year w l)
      then (month_in_year w l, date_in_year w l + 1)
      else (month_in_year w l + 1, 1))"

lemma step_in_common_year: "list_all (step_in_year 0) [0..363]"
  by code_simp

lemma step_in_leap_year: "list_all (step_in_year 1) [0..364]"
  by code_simp

lemma in_year_step:
  assumes w: "0 \<le> w" "w + 1 < 365 + l" and l: "l = 0 \<or> l = 1"
  shows "step_in_year l w"
proof -
  from l show ?thesis
  proof
    assume "l = 0"
    with w have "w \<in> set [0..363]" by simp
    with step_in_common_year show ?thesis unfolding \<open>l = 0\<close> list_all_iff by blast
  next
    assume "l = 1"
    with w have "w \<in> set [0..364]" by simp
    with step_in_leap_year show ?thesis unfolding \<open>l = 1\<close> list_all_iff by blast
  qed
qed

lemma DaysInYear_leap:
  "DaysInYear y = 366 \<longleftrightarrow> y mod 4 = 0 \<and> (y mod 100 \<noteq> 0 \<or> y mod 400 = 0)"
  using leap_dvd [of y] by (auto simp: DaysInYear_def)

lemma days_in_month_length:
  "0 \<le> m \<Longrightarrow> m \<le> 11 \<Longrightarrow>
   days_in_month y (m + 1) = month_length (if DaysInYear y = 366 then 1 else 0) m"
  unfolding DaysInYear_leap by (auto simp: days_in_month_def month_length_def)

lemma calendar_date_next: "calendar_date (t + msPerDay) = next_date (calendar_date t)"
proof -
  define n Y w l where "n = Day t" and "Y = YearFromDay n" and "w = n - DayFromYear Y"
    and "l = (if DaysInYear Y = 366 then 1 else 0 :: int)"
  have w: "0 \<le> w" "w < 365 + l" and l: "l = 0 \<or> l = 1"
    using DayWithinYear_range [of t]
    by (auto simp: DayWithinYear_def YearFromTime_def InLeapYear_def n_def Y_def w_def l_def)
  have len: "DaysInYear Y = 365 + l"
    using DaysInYear_cases [of Y] by (auto simp: l_def)
  have cur: "YearFromTime t = Y" "DayWithinYear t = w" "InLeapYear t = l"
    by (simp_all add: YearFromTime_def DayWithinYear_def InLeapYear_def n_def Y_def w_def l_def)
  have m: "0 \<le> month_in_year w l" "month_in_year w l \<le> 11"
    by (simp_all add: month_in_year_def)
  have dim: "days_in_month Y (month_in_year w l + 1) = month_length l (month_in_year w l)"
    using days_in_month_length [OF m, of Y] by (simp add: l_def)
  show ?thesis
  proof (cases "w + 1 < 365 + l")
    case True
    have "YearFromDay (n + 1) = Y"
      using True DayFromYear_Suc [of Y] len w
      by (intro YearFromDay_unique) (auto simp: w_def)
    then have nxt: "YearFromTime (t + msPerDay) = Y" "DayWithinYear (t + msPerDay) = w + 1"
      "InLeapYear (t + msPerDay) = l"
      by (simp_all add: YearFromTime_def DayWithinYear_def InLeapYear_def Day_next
            n_def [symmetric] w_def l_def)
    from in_year_step [OF w(1) True l] have "step_in_year l w" .
    moreover have "month_in_year (w + 1) l \<le> 11"
      by (simp add: month_in_year_def)
    ultimately show ?thesis
      using m
      by (auto simp: step_in_year_def calendar_date_def DateFromTime_def MonthFromTime_def
            cur nxt dim split: if_splits)
  next
    case False
    with w have last: "w = 364 + l" by simp
    have "YearFromDay (n + 1) = Y + 1"
      using last DayFromYear_Suc [of Y] DayFromYear_Suc [of "Y + 1"] len
        DaysInYear_cases [of "Y + 1"]
      by (intro YearFromDay_unique) (auto simp: w_def)
    moreover have "n + 1 = DayFromYear (Y + 1)"
      using last DayFromYear_Suc [of Y] len by (simp add: w_def)
    ultimately have nxt: "YearFromTime (t + msPerDay) = Y + 1" "DayWithinYear (t + msPerDay) = 0"
      by (simp_all add: YearFromTime_def DayWithinYear_def Day_next n_def [symmetric])
    have "month_in_year w l = 11" "date_in_year w l = 31"
      using l last by (auto simp: month_in_year_def date_in_year_def)
    moreover have "month_in_year 0 (InLeapYear (t + msPerDay)) = 0"
      "date_in_year 0 (InLeapYear (t + msPerDay)) = 1"
      by (simp_all add: month_in_year_def date_in_year_def)
    ultimately show ?thesis
      by (simp add: calendar_date_def DateFromTime_def MonthFromTime_def cur nxt
            days_in_month_def)
  qed
qed

lemma dates_from_funpow: "dates_from d n = map (\<lambda>j. (next_date ^^ j) d) [0..<n]"
proof (induction n arbitrary: d)
  case 0
  show ?case by simp
next
  case (Suc n)
  have "map (\<lambda>j. (next_date ^^ j) d) [0..<Suc n] =
        d # map (\<lambda>j. (next_date ^^ j) (next_date d)) [0..<n]"
    by (simp add: upt_conv_Cons map_Suc_upt [symmetric] funpow_swap1 del: upt_Suc)
  with Suc show ?case by simp
qed

lemma calendar_date_days:
  "calendar_date (t + int j * msPerDay) = (next_date ^^ j) (calendar_date t)"
proof (induction j)
  case 0
  show ?case by simp
next
  case (Suc j)
  have "t + int (Suc j) * msPerDay = (t + int j * msPerDay) + msPerDay"
    by (simp add: algebra_simps)
  then have "calendar_date (t + int (Suc j) * msPerDay) =
      next_date (calendar_date (t + int j * msPerDay))"
    by (simp only: calendar_date_next)
  with Suc show ?case by simp
qed

subsection \<open>Formatting\<close>

lemma nat_digits_1: "n < 10 \<Longrightarrow> nat_digits n = [digit_char n]"
  by (subst nat_digits.simps) simp

lemma nat_digits_2:
  assumes "10 \<le> n" "n < 100"
  shows "nat_digits n = [digit_char (n div 10), digit_char (n mod 10)]"
proof -
  from assms have "n div 10 < 10" by simp
  with assms show ?thesis by (subst nat_digits.simps) (simp add: nat_digits_1)
qed

lemma nat_digits_3:
  assumes "100 \<le> n" "n < 1000"
  shows "nat_digits n = [digit_char (n div 100), digit_char (n div 10 mod 10), digit_char (n mod 10)]"
proof -
  from assms have "10 \<le> n div 10" "n div 10 < 100" by simp_all
  moreover have "n div 10 div 10 = n div 100" by (simp add: div_mult2_eq [symmetric])
  ultimately show ?thesis using assms by (subst nat_digits.simps) (simp add: nat_digits_2)
qed

lemma nat_digits_4:
  assumes "1000 \<le> n" "n < 10000"
  shows "nat_digits n = [digit_char (n div 1000 mod 10), digit_char (n div 100 mod 10),
                         digit_char (n div 10 mod 10), digit_char (n mod 10)]"
proof -
  from assms have "100 \<le> n div 10" "n div 10 < 1000" by simp_all
  moreover have "n div 10 div 100 = n div 1000" "n div 10 div 10 = n div 100"
    by (simp_all add: div_mult2_eq [symmetric])
  moreover from assms have "n div 1000 < 10" by simp
  ultimately show ?thesis using assms by (subst nat_digits.simps) (simp add: nat_digits_3)
qed

lemma two_digits:
  assumes "n < 100"
  shows "padStart (nat_digits n) 2 CHR ''0'' = [digit_char (n div 10 mod 10), digit_char (n mod 10)]"
proof (cases "n < 10")
  case True
  then show ?thesis by (simp add: padStart_def nat_digits_1 digit_char_def)
next
  case False
  with assms have "n div 10 < 10" by simp
  with False assms show ?thesis by (simp add: padStart_def nat_digits_2)
qed

lemma date_string_iso:
  assumes "1000 \<le> YearFromTime (LocalTime tz u)" "YearFromTime (LocalTime tz u) \<le> 9999"
  shows "date_string tz (Some u) = iso_date (calendar_date (LocalTime tz u))"
proof -
  define L where "L = LocalTime tz u"
  have m: "0 \<le> MonthFromTime L + 1" "nat (MonthFromTime L + 1) < 100"
    using MonthFromTime_range [of L] by simp_all
  have d: "0 \<le> DateFromTime L" "nat (DateFromTime L) < 100"
    using DateFromTime_range [of L] by simp_all
  have y: "0 \<le> YearFromTime L" "1000 \<le> nat (YearFromTime L)" "nat (YearFromTime L) < 10000"
    using assms by (simp_all add: L_def)
  show ?thesis
    using m(1) d(1) y(1)
    by (simp add: date_string_def getFullYear_def getMonth_def getDate_def ToString_def
          calendar_date_def L_def [symmetric] two_digits [OF m(2)] two_digits [OF d(2)]
          nat_digits_4 [OF y(2,3)])
qed

subsection \<open>\<open>setDate\<close> in a zone with a fixed offset\<close>

lemma MakeDay_of_time:
  "MakeDay (YearFromTime L) (MonthFromTime L) (DateFromTime L + k) = Day L + k"
proof -
  have "MonthFromTime L div 12 = 0" "MonthFromTime L mod 12 = MonthFromTime L"
    using MonthFromTime_range [of L] by simp_all
  then show ?thesis
    by (simp add: MakeDay_def DateFromTime_eq InLeapYear_def DayWithinYear_def)
qed

lemma MakeDate_of_time: "MakeDate (Day L + k) (TimeWithinDay L) = L + k * msPerDay"
  by (simp add: MakeDate_def Day_def TimeWithinDay_def algebra_simps)

lemma setDate_next:
  "setDate tz (Some u) (map_option (\<lambda>d. d + k) (getDate tz (Some u))) =
     TimeClip (UTC tz (LocalTime tz u + k * msPerDay))"
  by (simp add: setDate_def getDate_def MakeDay_of_time MakeDate_of_time)

lemma setDate_fixed_zone:
  "setDate (fixed_zone c) (Some u)
     (map_option (\<lambda>d. d + k) (getDate (fixed_zone c) (Some u))) = TimeClip (u + k * msPerDay)"
  by (simp add: setDate_next LocalTime_def UTC_def fixed_zone_def)

lemma date_loop_fixed_zone:
  assumes clip: "\<And>j. j \<le> 15 \<Longrightarrow> TimeClip (t + int j * msPerDay) = Some (t + int j * msPerDay)"
  shows "i \<le> 15 \<Longrightarrow>
     date_loop (fixed_zone c) (Some (t + int i * msPerDay)) (Some (t + 14 * msPerDay)) acc =
     Some (acc @ map (\<lambda>j. date_string (fixed_zone c) (Some (t + int j * msPerDay))) [i..<15])"
proof (induction "15 - i" arbitrary: i acc)
  case 0
  then have "i = 15" by simp
  then show ?case
    by (subst date_loop.simps) (simp add: less_eq_time_def msPerDay_def)
next
  case (Suc n)
  then have i: "i < 15" "Suc i \<le> 15" "n = 15 - Suc i" by simp_all
  have nxt: "setDate (fixed_zone c) (Some (t + int i * msPerDay))
      (map_option (\<lambda>d. d + 1) (getDate (fixed_zone c) (Some (t + int i * msPerDay)))) =
      Some (t + int (Suc i) * msPerDay)"
    using clip [OF i(2)] by (simp add: setDate_fixed_zone algebra_simps)
  have le: "less_eq_time (Some (t + int i * msPerDay)) (Some (t + 14 * msPerDay))"
    using i(1) by (simp add: less_eq_time_def msPerDay_def)
  have "date_loop (fixed_zone c) (Some (t + int i * msPerDay)) (Some (t + 14 * msPerDay)) acc =
        date_loop (fixed_zone c) (Some (t + int (Suc i) * msPerDay)) (Some (t + 14 * msPerDay))
          (acc @ [date_string (fixed_zone c) (Some (t + int i * msPerDay))])"
    by (subst date_loop.simps) (simp only: le nxt if_True)
  also have "\<dots> = Some ((acc @ [date_string (fixed_zone c) (Some (t + int i * msPerDay))]) @
        map (\<lambda>j. date_string (fixed_zone c) (Some (t + int j * msPerDay))) [Suc i..<15])"
    by (rule Suc.hyps(1) [OF i(3) i(2)])
  also have "\<dots> = Some (acc @
        map (\<lambda>j. date_string (fixed_zone c) (Some (t + int j * msPerDay))) [i..<15])"
    using i(1) by (simp add: upt_conv_Cons del: upt_Suc)
  finally show ?case .
qed

lemma getDateRangeGeoglows_fixed_zone:
  assumes clip: "\<And>j. j \<le> 15 \<Longrightarrow> TimeClip (t + int j * msPerDay) = Some (t + int j * msPerDay)"
  shows "getDateRangeGeoglows (fixed_zone c) (Some t) =
     Some (map (\<lambda>j. date_string (fixed_zone c) (Some (t + int j * msPerDay))) [0..<15])"
proof -
  have "setDate (fixed_zone c) (Some t)
      (map_option (\<lambda>d. d + 14) (getDate (fixed_zone c) (Some t))) = Some (t + 14 * msPerDay)"
    using clip [of 14] by (simp add: setDate_fixed_zone)
  then show ?thesis
    using date_loop_fixed_zone [OF clip, of 0 c "[]"]
    by (simp add: getDateRangeGeoglows_def)
qed

lemma Day_add: "Day (t + k * msPerDay) = Day t + k"
  by (simp add: Day_def msPerDay_def)

lemma DayFromYear_1000: "DayFromYear 1000 = - 354285"
  by (simp add: DayFromYear_def)

lemma DayFromYear_10000: "DayFromYear 10000 = 2932897"
  by (simp add: DayFromYear_def)

lemma four_digit_years:
  assumes lo: "1000 \<le> YearFromTime L" and hi: "YearFromTime (L + 14 * msPerDay) \<le> 9999"
  shows "- 354285 \<le> Day L" and "Day L < 2932883"
    and "j \<le> 14 \<Longrightarrow> 1000 \<le> YearFromTime (L + int j * msPerDay)"
    and "j \<le> 14 \<Longrightarrow> YearFromTime (L + int j * msPerDay) \<le> 9999"
proof -
  have "DayFromYear 1000 \<le> DayFromYear (YearFromDay (Day L))"
    using lo by (intro DayFromYear_mono) (simp add: YearFromTime_def)
  with YearFromDay_bounds(1) [of "Day L"] show "- 354285 \<le> Day L"
    by (simp add: DayFromYear_1000)
  have "DayFromYear (YearFromDay (Day L + 14) + 1) \<le> DayFromYear 10000"
    using hi Day_add [of L 14] by (intro DayFromYear_mono) (simp add: YearFromTime_def)
  with YearFromDay_bounds(2) [of "Day L + 14"] show "Day L < 2932883"
    by (simp add: DayFromYear_10000)
  assume j: "j \<le> 14"
  have "YearFromDay (Day L) \<le> YearFromDay (Day L + int j)"
    by (intro YearFromDay_mono) simp
  with lo show "1000 \<le> YearFromTime (L + int j * msPerDay)"
    by (simp add: YearFromTime_def Day_add)
  have "YearFromDay (Day L + int j) \<le> YearFromDay (Day L + 14)"
    using j by (intro YearFromDay_mono) simp
  with hi Day_add [of L 14] show "YearFromTime (L + int j * msPerDay) \<le> 9999"
    by (simp add: YearFromTime_def Day_add)
qed

lemma TimeClip_in_range:
  assumes c: "\<bar>c\<bar> \<le> msPerDay" and lo: "- 354285 \<le> Day (t + c)" and hi: "Day (t + c) < 2932883"
    and j: "j \<le> 15"
  shows "TimeClip (t + int j * msPerDay) = Some (t + int j * msPerDay)"
proof -
  define n where "n = Day (t + c)"
  have n: "86400000 * n \<le> t + c" "t + c < 86400000 * n + 86400000"
    unfolding n_def Day_def msPerDay_def using div_bounds [of 86400000 "t + c"] by simp_all
  have "- 354286 * 86400000 \<le> t" "t \<le> 2932884 * 86400000"
    using n c lo hi unfolding n_def [symmetric] msPerDay_def by simp_all
  moreover have "0 \<le> int j * 86400000" "int j * 86400000 \<le> 15 * 86400000"
    using j by simp_all
  ultimately have "\<bar>t + int j * 86400000\<bar> \<le> 8640000000000000" by simp
  then show ?thesis by (simp add: TimeClip_def msPerDay_def)
qed

subsection \<open>Fifteen consecutive dates\<close>

text \<open>
  Where the function does what is expected of it. In a time zone whose offset from UTC is
  fixed (\<open>c\<close> milliseconds, at most a day), for a valid selected date whose range lies in
  the years 1000 to 9999, \<open>getDateRangeGeoglows\<close> returns exactly fifteen strings: the
  selected local date and the fourteen calendar dates that follow it, in ascending order,
  each written \<open>YYYY-MM-DD\<close>.
\<close>

lemma getDateRangeGeoglows_fifteen_dates:
  assumes "\<bar>c\<bar> \<le> msPerDay"
    and "1000 \<le> YearFromTime (t + c)"
    and "YearFromTime (t + c + 14 * msPerDay) \<le> 9999"
  shows "getDateRangeGeoglows (fixed_zone c) (Some t) =
     Some (map iso_date (dates_from (calendar_date (t + c)) 15))"
proof -
  note years = four_digit_years [OF assms(2,3)]
  have clip: "\<And>j. j \<le> 15 \<Longrightarrow> TimeClip (t + int j * msPerDay) = Some (t + int j * msPerDay)"
    using assms(1) years(1,2) by (rule TimeClip_in_range)
  have "date_string (fixed_zone c) (Some (t + int j * msPerDay)) =
        iso_date ((next_date ^^ j) (calendar_date (t + c)))" if "j < 15" for j
  proof -
    have L: "LocalTime (fixed_zone c) (t + int j * msPerDay) = t + c + int j * msPerDay"
      by (simp add: LocalTime_def fixed_zone_def)
    from that have "j \<le> 14" by simp
    then show ?thesis
      using years(3,4) [of j]
      by (simp add: date_string_iso L calendar_date_days)
  qed
  then have "map (\<lambda>j. date_string (fixed_zone c) (Some (t + int j * msPerDay))) [0..<15] =
        map (\<lambda>j. iso_date ((next_date ^^ j) (calendar_date (t + c)))) [0..<15]"
    by (intro map_cong) simp_all
  then show ?thesis
    by (simp only: getDateRangeGeoglows_fixed_zone [OF clip] dates_from_funpow map_map o_def)
qed

lemma getDateRangeGeoglows_fifteen_dates_example:
  "\<bar>- 18000000\<bar> \<le> msPerDay \<and>
   1000 \<le> YearFromTime (1766631600000 + - 18000000) \<and>
   YearFromTime (1766631600000 + - 18000000 + 14 * msPerDay) \<le> 9999 \<and>
   getDateRangeGeoglows (fixed_zone (- 18000000)) (Some 1766631600000) =
     Some [''2025-12-24'', ''2025-12-25'', ''2025-12-26'', ''2025-12-27'', ''2025-12-28'',
           ''2025-12-29'', ''2025-12-30'', ''2025-12-31'', ''2026-01-01'', ''2026-01-02'',
           ''2026-01-03'', ''2026-01-04'', ''2026-01-05'', ''2026-01-06'', ''2026-01-07'']"
proof -
  have h: "\<bar>- 18000000\<bar> \<le> msPerDay" "1000 \<le> YearFromTime (1766631600000 + - 18000000)"
    "YearFromTime (1766631600000 + - 18000000 + 14 * msPerDay) \<le> 9999"
    by code_simp+
  have "calendar_date (1766631600000 + - 18000000) = (2025, 12, 24)"
    by code_simp
  moreover have "dates_from (2025, 12, 24) 15 =
     [(2025, 12, 24), (2025, 12, 25), (2025, 12, 26), (2025, 12, 27), (2025, 12, 28),
      (2025, 12, 29), (2025, 12, 30), (2025, 12, 31), (2026, 1, 1), (2026, 1, 2),
      (2026, 1, 3), (2026, 1, 4), (2026, 1, 5), (2026, 1, 6), (2026, 1, 7)]"
    by code_simp
  ultimately have "map iso_date (dates_from (calendar_date (1766631600000 + - 18000000)) 15) =
     [''2025-12-24'', ''2025-12-25'', ''2025-12-26'', ''2025-12-27'', ''2025-12-28'',
      ''2025-12-29'', ''2025-12-30'', ''2025-12-31'', ''2026-01-01'', ''2026-01-02'',
      ''2026-01-03'', ''2026-01-04'', ''2026-01-05'', ''2026-01-06'', ''2026-01-07'']"
    by (simp add: digit_char_def)
  with getDateRangeGeoglows_fifteen_dates [OF h] h show ?thesis by simp
qed

text \<open>
  The function has no guard of its own: an invalid date gives no date at all, and a date
  of the year 999 gives strings whose year has three digits (the year is not padded, month
  and day are). The callers pass neither: the date picker starts at 2025-01-01 and an
  empty value is skipped.
\<close>

lemma getDateRangeGeoglows_unguarded:
  "getDateRangeGeoglows (fixed_zone 0) None = Some [] \<and>
   map_option hd (getDateRangeGeoglows (fixed_zone 0) (Some (- 30610785600000))) =
     Some ''999-12-25''"
proof -
  have "getDateRangeGeoglows (fixed_zone 0) None = Some []"
    by (simp add: getDateRangeGeoglows_def setDate_def date_loop.simps less_eq_time_def)
  moreover have "TimeClip (- 30610785600000 + int j * msPerDay) =
      Some (- 30610785600000 + int j * msPerDay)" if "j \<le> 15" for j
    using that by (simp add: TimeClip_def msPerDay_def)
  then have "getDateRangeGeoglows (fixed_zone 0) (Some (- 30610785600000)) =
      Some (map (\<lambda>j. date_string (fixed_zone 0) (Some (- 30610785600000 + int j * msPerDay)))
        [0..<15])"
    by (rule getDateRangeGeoglows_fixed_zone)
  moreover have "calendar_date (- 30610785600000) = (999, 12, 25)"
    by code_simp
  then have "date_string (fixed_zone 0) (Some (- 30610785600000)) = ''999-12-25''"
    by (simp add: date_string_def getFullYear_def getMonth_def getDate_def LocalTime_def
          fixed_zone_def calendar_date_def ToString_def padStart_def nat_digits_3 nat_digits_2
          digit_char_def)
  ultimately show ?thesis by (simp add: upt_conv_Cons del: upt_Suc)
qed

subsection \<open>Evaluating the loop on a given date\<close>

lemma date_loop_visited:
  "visited n tz currentDate endDate = Some us \<Longrightarrow>
   date_loop tz currentDate endDate acc = Some (acc @ map (\<lambda>u. date_string tz (Some u)) us)"
proof (induction n arbitrary: currentDate acc us)
  case 0
  then show ?case by simp
next
  case (Suc n)
  show ?case
  proof (cases "less_eq_time currentDate endDate")
    case False
    with Suc.prems have "us = []"
      by (auto simp: less_eq_time_def split: option.splits if_splits)
    with False show ?thesis by (subst date_loop.simps) simp
  next
    case True
    then obtain u e where ue: "currentDate = Some u" "endDate = Some e" "u \<le> e"
      by (auto simp: less_eq_time_def split: option.splits)
    with Suc.prems obtain vs where vs: "us = u # vs"
      "visited n tz (TimeClip (UTC tz (LocalTime tz u + msPerDay))) endDate = Some vs"
      by auto
    have "date_loop tz currentDate endDate acc =
          date_loop tz (TimeClip (UTC tz (LocalTime tz u + msPerDay))) endDate
            (acc @ [date_string tz (Some u)])"
      using True setDate_next [of tz u 1] by (subst date_loop.simps) (simp add: ue)
    also have "\<dots> = Some ((acc @ [date_string tz (Some u)]) @
          map (\<lambda>u. date_string tz (Some u)) vs)"
      by (rule Suc.IH [OF vs(2)])
    finally show ?thesis by (simp add: vs)
  qed
qed

lemma date_strings_calendar:
  "list_all (\<lambda>u. 1000 \<le> YearFromTime (LocalTime tz u) \<and> YearFromTime (LocalTime tz u) \<le> 9999) us \<Longrightarrow>
   map (\<lambda>u. date_string tz (Some u)) us = map iso_date (map (\<lambda>u. calendar_date (LocalTime tz u)) us)"
  by (induction us) (simp_all add: date_string_iso)

subsection \<open>A clock change inside the range\<close>

text \<open>
  The zone \<open>santiago_2025\<close> moves its clocks from UTC-4 to UTC-3 at 2025-09-07T04:00Z,
  which is midnight local time, as America/Santiago did. The date picker gives local
  midnight of the day chosen.
\<close>

definition santiago_2025 :: timezone where
  "santiago_2025 = spring_forward 1757217600000 (- 14400000) (- 10800000)"

text \<open>
  Claim C5 says that the range of every selected initialization date holds exactly fifteen
  consecutive dates, starting at the selected one. The code does not deliver that for the
  date selected at local midnight of 30 August 2025 in this zone. \<open>endDate\<close> is midnight
  of 13 September. The walking date reaches the skipped midnight of 7 September, becomes
  01:00, and keeps that time of day: on 13 September it is 01:00, later than \<open>endDate\<close>,
  and the loop stops. The loop counts no rounds, it compares instants, and the fifteenth
  date, 13 September, is lost with the hour: fourteen dates are returned.
\<close>

theorem getDateRangeGeoglows_clock_change:
  "getDateRangeGeoglows santiago_2025 (Some 1756526400000) =
     Some [''2025-08-30'', ''2025-08-31'', ''2025-09-01'', ''2025-09-02'', ''2025-09-03'',
           ''2025-09-04'', ''2025-09-05'', ''2025-09-06'', ''2025-09-07'', ''2025-09-08'',
           ''2025-09-09'', ''2025-09-10'', ''2025-09-11'', ''2025-09-12''] \<and>
   map_option length (getDateRangeGeoglows santiago_2025 (Some 1756526400000)) = Some 14"
proof -
  let ?Z = santiago_2025
  let ?us = "[1756526400000, 1756612800000, 1756699200000, 1756785600000, 1756872000000,
              1756958400000, 1757044800000, 1757131200000, 1757217600000, 1757304000000,
              1757390400000, 1757476800000, 1757563200000, 1757649600000]"
  have e: "setDate ?Z (Some 1756526400000)
      (map_option (\<lambda>d. d + 14) (getDate ?Z (Some 1756526400000))) = Some 1757732400000"
    by (simp add: setDate_next santiago_2025_def spring_forward_def LocalTime_def UTC_def
          TimeClip_def msPerDay_def)
  have v: "visited 20 ?Z (Some 1756526400000) (Some 1757732400000) = Some ?us"
    by code_simp
  have cs:
    "calendar_date (LocalTime ?Z 1756526400000) = (2025, 8, 30)"
      "calendar_date (LocalTime ?Z 1756612800000) = (2025, 8, 31)"
      "calendar_date (LocalTime ?Z 1756699200000) = (2025, 9, 1)"
      "calendar_date (LocalTime ?Z 1756785600000) = (2025, 9, 2)"
      "calendar_date (LocalTime ?Z 1756872000000) = (2025, 9, 3)"
      "calendar_date (LocalTime ?Z 1756958400000) = (2025, 9, 4)"
      "calendar_date (LocalTime ?Z 1757044800000) = (2025, 9, 5)"
      "calendar_date (LocalTime ?Z 1757131200000) = (2025, 9, 6)"
      "calendar_date (LocalTime ?Z 1757217600000) = (2025, 9, 7)"
      "calendar_date (LocalTime ?Z 1757304000000) = (2025, 9, 8)"
      "calendar_date (LocalTime ?Z 1757390400000) = (2025, 9, 9)"
      "calendar_date (LocalTime ?Z 1757476800000) = (2025, 9, 10)"
      "calendar_date (LocalTime ?Z 1757563200000) = (2025, 9, 11)"
      "calendar_date (LocalTime ?Z 1757649600000) = (2025, 9, 12)"
    by code_simp+
  have c: "map (\<lambda>u. calendar_date (LocalTime ?Z u)) ?us =
      [(2025, 8, 30), (2025, 8, 31), (2025, 9, 1), (2025, 9, 2), (2025, 9, 3), (2025, 9, 4),
       (2025, 9, 5), (2025, 9, 6), (2025, 9, 7), (2025, 9, 8), (2025, 9, 9), (2025, 9, 10),
       (2025, 9, 11), (2025, 9, 12)]"
    by (simp only: list.map cs)
  have "map (\<lambda>u. date_string ?Z (Some u)) ?us =
      [''2025-08-30'', ''2025-08-31'', ''2025-09-01'', ''2025-09-02'', ''2025-09-03'',
       ''2025-09-04'', ''2025-09-05'', ''2025-09-06'', ''2025-09-07'', ''2025-09-08'',
       ''2025-09-09'', ''2025-09-10'', ''2025-09-11'', ''2025-09-12'']"
  proof -
    have "list_all (\<lambda>u. 1000 \<le> YearFromTime (LocalTime ?Z u) \<and>
        YearFromTime (LocalTime ?Z u) \<le> 9999) ?us"
      by code_simp
    then show ?thesis
      by (simp only: date_strings_calendar c) (simp add: digit_char_def)
  qed
  with date_loop_visited [OF v, of "[]"]
  have "getDateRangeGeoglows ?Z (Some 1756526400000) =
     Some [''2025-08-30'', ''2025-08-31'', ''2025-09-01'', ''2025-09-02'', ''2025-09-03'',
           ''2025-09-04'', ''2025-09-05'', ''2025-09-06'', ''2025-09-07'', ''2025-09-08'',
           ''2025-09-09'', ''2025-09-10'', ''2025-09-11'', ''2025-09-12'']"
    by (simp add: getDateRangeGeoglows_def e)
  then show ?thesis by simp
qed

section \<open>The series store's schema: the \<open>geoglows\<close> database\<close>

text \<open>
  The four series tables are declared \<open>PARTITION BY RANGE\<close> on a \<open>TIMESTAMP\<close> column
  (\<open>datetime\<close>; \<open>initialized\<close> for \<open>ensemble_forecast\<close>), each with a fixed list of
  partitions \<open>FOR VALUES FROM (lo) TO (hi)\<close>. A timestamp is a calendar date and the
  microsecond of its day, ordered lexicographically, which is the order of time. A
  partition holds the rows with \<open>lo \<le> key < hi\<close>: the lower bound is inclusive and the
  upper one exclusive. No table has a default partition, so a row whose key no partition
  covers is refused by the insert.
\<close>

type_synonym timestamp = "nat \<times> nat \<times> nat \<times> nat"

definition date :: "nat \<Rightarrow> nat \<Rightarrow> nat \<Rightarrow> timestamp" where
  "date y m d = (y, m, d, 0)"

record partition =
  pname :: string
  pfrom :: timestamp
  pto :: timestamp

datatype series_kind = Waterlevel_data | Historical_simulation | Ensemble_forecast | Forecast_records

fun partition_key :: "series_kind \<Rightarrow> string" where
  "partition_key Waterlevel_data = ''datetime''"
| "partition_key Historical_simulation = ''datetime''"
| "partition_key Ensemble_forecast = ''initialized''"
| "partition_key Forecast_records = ''datetime''"

definition waterlevel_data :: "partition list" where
  "waterlevel_data =
     [ \<lparr> pname = ''waterlevel_data_2000_2010'', pfrom = date 2000 1 1, pto = date 2010 1 1 \<rparr>,
       \<lparr> pname = ''waterlevel_data_2010_2020'', pfrom = date 2010 1 1, pto = date 2020 1 1 \<rparr>,
       \<lparr> pname = ''waterlevel_data_2020_2030'', pfrom = date 2020 1 1, pto = date 2030 1 1 \<rparr> ]"

definition historical_simulation :: "partition list" where
  "historical_simulation =
     [ \<lparr> pname = ''historical_simulation_2000_2010'', pfrom = date 2000 1 1, pto = date 2010 1 1 \<rparr>,
       \<lparr> pname = ''historical_simulation_2010_2020'', pfrom = date 2010 1 1, pto = date 2020 1 1 \<rparr>,
       \<lparr> pname = ''historical_simulation_2020_2030'', pfrom = date 2020 1 1, pto = date 2030 1 1 \<rparr> ]"

definition ensemble_forecast :: "partition list" where
  "ensemble_forecast =
     [ \<lparr> pname = ''ensemble_forecast_2025_01'', pfrom = date 2025 1 1, pto = date 2025 2 1 \<rparr>,
       \<lparr> pname = ''ensemble_forecast_2025_02'', pfrom = date 2025 2 1, pto = date 2025 3 1 \<rparr>,
       \<lparr> pname = ''ensemble_forecast_2025_03'', pfrom = date 2025 3 1, pto = date 2025 4 1 \<rparr>,
       \<lparr> pname = ''ensemble_forecast_2025_04'', pfrom = date 2025 4 1, pto = date 2025 5 1 \<rparr>,
       \<lparr> pname = ''ensemble_forecast_2025_05'', pfrom = date 2025 5 1, pto = date 2025 6 1 \<rparr>,
       \<lparr> pname = ''ensemble_forecast_2025_06'', pfrom = date 2025 6 1, pto = date 2025 7 1 \<rparr>,
       \<lparr> pname = ''ensemble_forecast_2025_07'', pfrom = date 2025 7 1, pto = date 2025 8 1 \<rparr>,
       \<lparr> pname = ''ensemble_forecast_2025_08'', pfrom = date 2025 8 1, pto = date 2025 9 1 \<rparr>,
       \<lparr> pname = ''ensemble_forecast_2025_09'', pfrom = date 2025 9 1, pto = date 2025 10 1 \<rparr>,
       \<lparr> pname = ''ensemble_forecast_2025_10'', pfrom = date 2025 10 1, pto = date 2025 11 1 \<rparr>,
       \<lparr> pname = ''ensemble_forecast_2025_11'', pfrom = date 2025 11 1, pto = date 2025 12 1 \<rparr>,
       \<lparr> pname = ''ensemble_forecast_2025_12'', pfrom = date 2025 12 1, pto = date 2026 1 1 \<rparr>,
       \<lparr> pname = ''ensemble_forecast_2026_01'', pfrom = date 2026 1 1, pto = date 2026 2 1 \<rparr>,
       \<lparr> pname = ''ensemble_forecast_2026_02'', pfrom = date 2026 2 1, pto = date 2026 3 1 \<rparr>,
       \<lparr> pname = ''ensemble_forecast_2026_03'', pfrom = date 2026 3 1, pto = date 2026 4 1 \<rparr>,
       \<lparr> pname = ''ensemble_forecast_2026_04'', pfrom = date 2026 4 1, pto = date 2026 5 1 \<rparr>,
       \<lparr> pname = ''ensemble_forecast_2026_05'', pfrom = date 2026 5 1, pto = date 2026 6 1 \<rparr>,
       \<lparr> pname = ''ensemble_forecast_2026_06'', pfrom = date 2026 6 1, pto = date 2026 7 1 \<rparr>,
       \<lparr> pname = ''ensemble_forecast_2026_07'', pfrom = date 2026 7 1, pto = date 2026 8 1 \<rparr>,
       \<lparr> pname = ''ensemble_forecast_2026_08'', pfrom = date 2026 8 1, pto = date 2026 9 1 \<rparr>,
       \<lparr> pname = ''ensemble_forecast_2026_09'', pfrom = date 2026 9 1, pto = date 2026 10 1 \<rparr>,
       \<lparr> pname = ''ensemble_forecast_2026_10'', pfrom = date 2026 10 1, pto = date 2026 11 1 \<rparr>,
       \<lparr> pname = ''ensemble_forecast_2026_11'', pfrom = date 2026 11 1, pto = date 2026 12 1 \<rparr>,
       \<lparr> pname = ''ensemble_forecast_2026_12'', pfrom = date 2026 12 1, pto = date 2027 1 1 \<rparr> ]"

definition forecast_records :: "partition list" where
  "forecast_records =
     [ \<lparr> pname = ''forecast_records_2025_2026'', pfrom = date 2025 1 1, pto = date 2026 1 1 \<rparr>,
       \<lparr> pname = ''forecast_records_2026_2027'', pfrom = date 2026 1 1, pto = date 2027 1 1 \<rparr> ]"

fun partitions :: "series_kind \<Rightarrow> partition list" where
  "partitions Waterlevel_data = waterlevel_data"
| "partitions Historical_simulation = historical_simulation"
| "partitions Ensemble_forecast = ensemble_forecast"
| "partitions Forecast_records = forecast_records"

definition covers :: "timestamp \<Rightarrow> partition \<Rightarrow> bool" where
  "covers ts p \<longleftrightarrow> pfrom p \<le> ts \<and> ts < pto p"

datatype insert_error = No_partition_found

text \<open>Tuple routing of an insert: the partition whose bounds hold the row's key.\<close>

definition route :: "series_kind \<Rightarrow> timestamp \<Rightarrow> insert_error + string" where
  "route k ts =
     (case filter (covers ts) (partitions k) of
        [] \<Rightarrow> Inl No_partition_found
      | p # _ \<Rightarrow> Inr (pname p))"

text \<open>
  The width of a partition in calendar months, when both bounds are the first instant of a
  month: \<open>spans_months p n\<close> says that \<open>p\<close> runs from the start of one month to the
  start of the month \<open>n\<close> months later.
\<close>

fun month_start :: "timestamp \<Rightarrow> bool" where
  "month_start (y, m, d, us) \<longleftrightarrow> 1 \<le> m \<and> m \<le> 12 \<and> d = 1 \<and> us = 0"

fun month_number :: "timestamp \<Rightarrow> nat" where
  "month_number (y, m, d, us) = 12 * y + (m - 1)"

definition spans_months :: "partition \<Rightarrow> nat \<Rightarrow> bool" where
  "spans_months p n \<longleftrightarrow>
     month_start (pfrom p) \<and> month_start (pto p) \<and>
     month_number (pto p) = month_number (pfrom p) + n"

fun months_per_partition :: "series_kind \<Rightarrow> nat" where
  "months_per_partition Waterlevel_data = 120"
| "months_per_partition Historical_simulation = 120"
| "months_per_partition Ensemble_forecast = 1"
| "months_per_partition Forecast_records = 12"

text \<open>The time range a table's partitions were declared for.\<close>

fun declared_from :: "series_kind \<Rightarrow> timestamp" where
  "declared_from Waterlevel_data = date 2000 1 1"
| "declared_from Historical_simulation = date 2000 1 1"
| "declared_from Ensemble_forecast = date 2025 1 1"
| "declared_from Forecast_records = date 2025 1 1"

fun declared_to :: "series_kind \<Rightarrow> timestamp" where
  "declared_to Waterlevel_data = date 2030 1 1"
| "declared_to Historical_simulation = date 2030 1 1"
| "declared_to Ensemble_forecast = date 2027 1 1"
| "declared_to Forecast_records = date 2027 1 1"

text \<open>
  A list of partitions is a chain when each one is non-empty and starts where the one
  before it ends.
\<close>

fun chain :: "partition list \<Rightarrow> bool" where
  "chain [] \<longleftrightarrow> True"
| "chain [p] \<longleftrightarrow> pfrom p < pto p"
| "chain (p # q # ps) \<longleftrightarrow> pfrom p < pto p \<and> pto p = pfrom q \<and> chain (q # ps)"

lemma chain_before:
  "chain ps \<Longrightarrow> ps \<noteq> [] \<Longrightarrow> ts < pfrom (hd ps) \<Longrightarrow> filter (covers ts) ps = []"
proof (induction ps rule: chain.induct)
  case 1
  then show ?case by simp
next
  case (2 p)
  then show ?case by (auto simp: covers_def)
next
  case (3 p q ps)
  from "3.prems" have "ts < pfrom q" by auto
  with 3 show ?case by (auto simp: covers_def)
qed

lemma chain_ascending: "chain ps \<Longrightarrow> ps \<noteq> [] \<Longrightarrow> pfrom (hd ps) < pto (last ps)"
  by (induction ps rule: chain.induct) auto

lemma chain_after:
  "chain ps \<Longrightarrow> ps \<noteq> [] \<Longrightarrow> pto (last ps) \<le> ts \<Longrightarrow> filter (covers ts) ps = []"
proof (induction ps rule: chain.induct)
  case 1
  then show ?case by simp
next
  case (2 p)
  then show ?case by (auto simp: covers_def)
next
  case (3 p q ps)
  from "3.prems" have "pfrom (hd (q # ps)) < pto (last (q # ps))"
    by (intro chain_ascending) auto
  with "3.prems" have "pto p \<le> ts" by auto
  then have "\<not> covers ts p" by (auto simp: covers_def)
  moreover from "3.prems" have "filter (covers ts) (q # ps) = []"
    by (intro "3.IH") auto
  ultimately show ?case by simp
qed

lemma chain_covered_once:
  "chain ps \<Longrightarrow> ps \<noteq> [] \<Longrightarrow> pfrom (hd ps) \<le> ts \<Longrightarrow> ts < pto (last ps) \<Longrightarrow>
   \<exists>p. filter (covers ts) ps = [p]"
proof (induction ps rule: chain.induct)
  case 1
  then show ?case by simp
next
  case (2 p)
  then show ?case by (simp add: covers_def)
next
  case (3 p q ps)
  show ?case
  proof (cases "ts < pto p")
    case True
    with "3.prems" have "filter (covers ts) (q # ps) = []"
      by (intro chain_before) auto
    moreover from True "3.prems" have "covers ts p" by (simp add: covers_def)
    ultimately show ?thesis by simp
  next
    case False
    then have "\<not> covers ts p" by (simp add: covers_def)
    moreover from False "3.prems" have "\<exists>r. filter (covers ts) (q # ps) = [r]"
      by (intro "3.IH") auto
    ultimately show ?thesis by simp
  qed
qed

lemma chain_partitions: "chain (partitions k)"
  by (cases k)
    (simp_all add: waterlevel_data_def historical_simulation_def ensemble_forecast_def
       forecast_records_def date_def)

lemma partitions_range:
  "partitions k \<noteq> [] \<and> pfrom (hd (partitions k)) = declared_from k \<and>
   pto (last (partitions k)) = declared_to k"
  by (cases k)
    (simp_all add: waterlevel_data_def historical_simulation_def ensemble_forecast_def
       forecast_records_def)

lemma partitions_width: "list_all (\<lambda>p. spans_months p (months_per_partition k)) (partitions k)"
  by (cases k)
    (simp_all add: waterlevel_data_def historical_simulation_def ensemble_forecast_def
       forecast_records_def date_def spans_months_def)

text \<open>
  Claim C6, as the schema has it. \<open>waterlevel_data\<close> and \<open>historical_simulation\<close> are
  partitioned in ranges of ten years (2000 to 2030), \<open>forecast_records\<close> in ranges of one
  year (2025 to 2027) and \<open>ensemble_forecast\<close> in ranges of one month of \<open>initialized\<close>
  (January 2025 to December 2026). A row whose partition key lies in the range its table
  declares is covered by exactly one partition, and is routed to it; a row whose key lies
  outside is covered by none, and its insert is refused.
\<close>

theorem partitions_cover_declared_range:
  "list_all (\<lambda>p. spans_months p (months_per_partition k)) (partitions k) \<and>
   (declared_from k \<le> ts \<and> ts < declared_to k \<longrightarrow>
      (\<exists>p. filter (covers ts) (partitions k) = [p] \<and> covers ts p \<and> route k ts = Inr (pname p))) \<and>
   (ts < declared_from k \<or> declared_to k \<le> ts \<longrightarrow>
      filter (covers ts) (partitions k) = [] \<and> route k ts = Inl No_partition_found)"
proof (intro conjI impI)
  show "list_all (\<lambda>p. spans_months p (months_per_partition k)) (partitions k)"
    by (rule partitions_width)
next
  assume inside: "declared_from k \<le> ts \<and> ts < declared_to k"
  have "\<exists>p. filter (covers ts) (partitions k) = [p]"
    using chain_partitions [of k] partitions_range [of k] inside
    by (intro chain_covered_once) auto
  then obtain p where p: "filter (covers ts) (partitions k) = [p]" ..
  then have "p \<in> set (filter (covers ts) (partitions k))" by simp
  then have "covers ts p" by simp
  with p show "\<exists>p. filter (covers ts) (partitions k) = [p] \<and> covers ts p \<and> route k ts = Inr (pname p)"
    by (simp add: route_def)
next
  assume "ts < declared_from k \<or> declared_to k \<le> ts"
  then have none: "filter (covers ts) (partitions k) = []"
    using chain_partitions [of k] partitions_range [of k] chain_before [of "partitions k" ts]
      chain_after [of "partitions k" ts]
    by auto
  then show "filter (covers ts) (partitions k) = []" .
  from none show "route k ts = Inl No_partition_found" by (simp add: route_def)
qed

theorem partitions_cover_declared_range_witness:
  "declared_from Ensemble_forecast \<le> (2026, 11, 3, 21600000000) \<and>
   (2026, 11, 3, 21600000000) < declared_to Ensemble_forecast \<and>
   route Ensemble_forecast (2026, 11, 3, 21600000000) = Inr ''ensemble_forecast_2026_11'' \<and>
   date 2031 5 1 \<ge> declared_to Historical_simulation \<and>
   route Historical_simulation (date 2031 5 1) = Inl No_partition_found"
  using partitions_cover_declared_range [of Ensemble_forecast "(2026, 11, 3, 21600000000)"]
    partitions_cover_declared_range [of Historical_simulation "date 2031 5 1"]
  by (simp add: route_def covers_def ensemble_forecast_def historical_simulation_def date_def)

text \<open>
  The claim as the specification words it fails on this schema in both parts: the
  partition \<open>waterlevel_data_2000_2010\<close> holds June 2000 and June 2009 alike, so the
  table is not partitioned by year; and an observation of 31 December 1999 has no
  partition at all.
\<close>

theorem partitions_by_year_counterexample:
  "route Waterlevel_data (date 2000 6 15) = Inr ''waterlevel_data_2000_2010'' \<and>
   route Waterlevel_data (date 2009 6 15) = Inr ''waterlevel_data_2000_2010'' \<and>
   filter (covers (date 1999 12 31)) (partitions Waterlevel_data) = [] \<and>
   route Waterlevel_data (date 1999 12 31) = Inl No_partition_found"
  by (simp add: route_def covers_def waterlevel_data_def date_def)

section \<open>Exceedance and warning levels, from the specification\<close>

text \<open>
  The ensemble aggregator and the flood warning classifier are not among the sources: the
  repository holds the tables they read and write (\<open>ensemble_forecast\<close>, \<open>warning\<close>) and
  the client that shows their result. The two definitions below follow sections 4.3 and
  4.4 of the specification. Member values and thresholds are exact decimals
  (\<open>NUMERIC(10,3)\<close> in the schema), taken as rationals.
\<close>

text \<open>
  Modelled from the spec: the exceedance probability of the ensemble aggregator, whose
  code is missing. \<open>members\<close> is the member set of one reach and lead day, corrected and
  with the missing values left out; the probability for a threshold \<open>t\<close> is the fraction
  of the members with value \<open>\<ge> t\<close>. The specification gives no value for an empty member
  set; the fraction is 0 there.
\<close>

definition exceeding :: "rat list \<Rightarrow> rat \<Rightarrow> nat" where
  "exceeding members t = length (filter (\<lambda>v. t \<le> v) members)"

definition exceedance_probability :: "rat list \<Rightarrow> rat \<Rightarrow> rat" where
  "exceedance_probability members t =
     (if members = [] then 0 else of_nat (exceeding members t) / of_nat (length members))"

record thresholds =
  r2 :: rat
  r5 :: rat
  r10 :: rat
  r25 :: rat
  r50 :: rat
  r100 :: rat

definition valid_thresholds :: "thresholds \<Rightarrow> bool" where
  "valid_thresholds th \<longleftrightarrow>
     r2 th < r5 th \<and> r5 th < r10 th \<and> r10 th < r25 th \<and> r25 th < r50 th \<and> r50 th < r100 th"

datatype warning_level = No_warning | R2 | R5 | R10 | R25 | R50 | R100

datatype classifier_error = InvalidThresholds

text \<open>
  Modelled from the spec: the classification rule of the flood warning classifier, whose
  code is missing. Thresholds that are not strictly increasing fail with
  \<open>InvalidThresholds\<close>. Otherwise the thresholds are tried from \<open>R100\<close> downwards, and
  the first whose exceedance probability reaches the confidence cutoff is the warning
  level; \<open>no-warning\<close> when none does. The cutoff is a parameter (one half in the
  specification's example).
\<close>

definition level_of :: "rat \<Rightarrow> thresholds \<Rightarrow> rat list \<Rightarrow> warning_level" where
  "level_of cutoff th members =
     (if cutoff \<le> exceedance_probability members (r100 th) then R100
      else if cutoff \<le> exceedance_probability members (r50 th) then R50
      else if cutoff \<le> exceedance_probability members (r25 th) then R25
      else if cutoff \<le> exceedance_probability members (r10 th) then R10
      else if cutoff \<le> exceedance_probability members (r5 th) then R5
      else if cutoff \<le> exceedance_probability members (r2 th) then R2
      else No_warning)"

definition classify :: "rat \<Rightarrow> thresholds \<Rightarrow> rat list \<Rightarrow> classifier_error + warning_level" where
  "classify cutoff th members =
     (if valid_thresholds th then Inr (level_of cutoff th members) else Inl InvalidThresholds)"

text \<open>The words of the claims: the threshold of a level, its height, and meeting the cutoff.\<close>

fun threshold_of :: "thresholds \<Rightarrow> warning_level \<Rightarrow> rat option" where
  "threshold_of th No_warning = None"
| "threshold_of th R2 = Some (r2 th)"
| "threshold_of th R5 = Some (r5 th)"
| "threshold_of th R10 = Some (r10 th)"
| "threshold_of th R25 = Some (r25 th)"
| "threshold_of th R50 = Some (r50 th)"
| "threshold_of th R100 = Some (r100 th)"

fun height :: "warning_level \<Rightarrow> nat" where
  "height No_warning = 0"
| "height R2 = 1"
| "height R5 = 2"
| "height R10 = 3"
| "height R25 = 4"
| "height R50 = 5"
| "height R100 = 6"

definition meets_cutoff :: "rat \<Rightarrow> thresholds \<Rightarrow> rat list \<Rightarrow> warning_level \<Rightarrow> bool" where
  "meets_cutoff cutoff th members k =
     (case threshold_of th k of
        None \<Rightarrow> False
      | Some t \<Rightarrow> cutoff \<le> exceedance_probability members t)"

lemma exceeding_antimono: "t \<le> t' \<Longrightarrow> exceeding members t' \<le> exceeding members t"
  unfolding exceeding_def
proof (induction members)
  case Nil
  show ?case by simp
next
  case (Cons v vs)
  then show ?case by auto
qed

lemma exceedance_probability_antimono:
  assumes "t \<le> t'"
  shows "exceedance_probability members t' \<le> exceedance_probability members t"
proof (cases "members = []")
  case True
  then show ?thesis by (simp add: exceedance_probability_def)
next
  case False
  then have "0 < (of_nat (length members) :: rat)" by simp
  moreover have "(of_nat (exceeding members t') :: rat) \<le> of_nat (exceeding members t)"
    using exceeding_antimono [OF assms] by simp
  ultimately show ?thesis
    using False by (simp add: exceedance_probability_def divide_right_mono)
qed

text \<open>
  Claim C4. For a fixed member set the exceedance probability does not increase with the
  threshold; for strictly increasing thresholds,
  \<open>p(R2) \<ge> p(R5) \<ge> p(R10) \<ge> p(R25) \<ge> p(R50) \<ge> p(R100)\<close>.
\<close>

theorem exceedance_monotone:
  "(t \<le> t' \<longrightarrow> exceedance_probability members t' \<le> exceedance_probability members t) \<and>
   (valid_thresholds th \<longrightarrow>
      exceedance_probability members (r5 th) \<le> exceedance_probability members (r2 th) \<and>
      exceedance_probability members (r10 th) \<le> exceedance_probability members (r5 th) \<and>
      exceedance_probability members (r25 th) \<le> exceedance_probability members (r10 th) \<and>
      exceedance_probability members (r50 th) \<le> exceedance_probability members (r25 th) \<and>
      exceedance_probability members (r100 th) \<le> exceedance_probability members (r50 th))"
  by (simp add: valid_thresholds_def exceedance_probability_antimono)

text \<open>A station's thresholds and a member set of eight values, for the examples.\<close>

definition example_thresholds :: thresholds where
  "example_thresholds = \<lparr> r2 = 10, r5 = 12, r10 = 14, r25 = 16, r50 = 18, r100 = 20 \<rparr>"

definition example_members :: "rat list" where
  "example_members = [9, 21/2, 11, 13, 13, 15, 17, 19]"

theorem exceedance_monotone_witness:
  "valid_thresholds example_thresholds \<and>
   exceedance_probability example_members (r2 example_thresholds) = 7/8 \<and>
   exceedance_probability example_members (r5 example_thresholds) = 5/8 \<and>
   exceedance_probability example_members (r100 example_thresholds) = 0 \<and>
   exceedance_probability example_members (r5 example_thresholds)
     \<le> exceedance_probability example_members (r2 example_thresholds) \<and>
   exceedance_probability example_members (r100 example_thresholds)
     \<le> exceedance_probability example_members (r50 example_thresholds)"
proof -
  have v: "valid_thresholds example_thresholds"
    by (simp add: valid_thresholds_def example_thresholds_def)
  have "exceedance_probability example_members (r2 example_thresholds) = 7/8"
    "exceedance_probability example_members (r5 example_thresholds) = 5/8"
    "exceedance_probability example_members (r100 example_thresholds) = 0"
    by (simp_all add: exceedance_probability_def exceeding_def example_members_def
          example_thresholds_def)
  with v exceedance_monotone [of 0 0 example_members example_thresholds]
  show ?thesis by simp
qed

lemma level_of_meets:
  "level_of cutoff th members = No_warning \<or>
   meets_cutoff cutoff th members (level_of cutoff th members)"
  by (simp add: level_of_def meets_cutoff_def)

lemma level_of_highest:
  "meets_cutoff cutoff th members k \<Longrightarrow> height k \<le> height (level_of cutoff th members)"
  by (cases k) (simp_all add: level_of_def meets_cutoff_def)

lemma height_0: "height k = 0 \<Longrightarrow> k = No_warning"
  by (cases k) simp_all

text \<open>
  Claim C1. For strictly increasing thresholds the classifier returns a level \<open>L\<close>; every
  threshold whose exceedance probability meets the cutoff is at most as high as \<open>L\<close>, and
  \<open>L\<close> is either such a threshold or \<open>no-warning\<close>, so \<open>L\<close> is the highest threshold that
  meets the cutoff, and \<open>no-warning\<close> when none does. In particular, when 30 of 52
  members reach \<open>R25\<close> and 5 reach \<open>R50\<close>, the level at the cutoff one half is \<open>R25\<close>.
\<close>

theorem classify_highest_threshold:
  assumes "valid_thresholds th"
  shows "(\<exists>L. classify cutoff th members = Inr L \<and>
           (\<forall>k. meets_cutoff cutoff th members k \<longrightarrow> height k \<le> height L) \<and>
           (L = No_warning \<or> meets_cutoff cutoff th members L) \<and>
           (L = No_warning \<longleftrightarrow> (\<forall>k. \<not> meets_cutoff cutoff th members k))) \<and>
         (length members = 52 \<and> exceeding members (r25 th) = 30 \<and>
          exceeding members (r50 th) = 5 \<longrightarrow> classify (1/2) th members = Inr R25)"
proof (intro conjI impI)
  let ?L = "level_of cutoff th members"
  have L: "classify cutoff th members = Inr ?L"
    using assms by (simp add: classify_def)
  have high: "\<forall>k. meets_cutoff cutoff th members k \<longrightarrow> height k \<le> height ?L"
    using level_of_highest by blast
  have meets: "?L = No_warning \<or> meets_cutoff cutoff th members ?L"
    by (rule level_of_meets)
  have "?L = No_warning \<longleftrightarrow> (\<forall>k. \<not> meets_cutoff cutoff th members k)"
  proof
    assume "?L = No_warning"
    with high have "\<forall>k. meets_cutoff cutoff th members k \<longrightarrow> k = No_warning"
      by (simp add: height_0)
    moreover have "\<not> meets_cutoff cutoff th members No_warning"
      by (simp add: meets_cutoff_def)
    ultimately show "\<forall>k. \<not> meets_cutoff cutoff th members k" by blast
  next
    assume "\<forall>k. \<not> meets_cutoff cutoff th members k"
    with meets show "?L = No_warning" by blast
  qed
  with L high meets
  show "\<exists>L. classify cutoff th members = Inr L \<and>
           (\<forall>k. meets_cutoff cutoff th members k \<longrightarrow> height k \<le> height L) \<and>
           (L = No_warning \<or> meets_cutoff cutoff th members L) \<and>
           (L = No_warning \<longleftrightarrow> (\<forall>k. \<not> meets_cutoff cutoff th members k))"
    by blast
next
  assume "length members = 52 \<and> exceeding members (r25 th) = 30 \<and>
    exceeding members (r50 th) = 5"
  then have n: "length members = 52" and a: "exceeding members (r25 th) = 30"
    and b: "exceeding members (r50 th) = 5" by simp_all
  from n have ne: "members \<noteq> []" by auto
  have p25: "exceedance_probability members (r25 th) = 30/52"
    using ne n a by (simp add: exceedance_probability_def)
  have p50: "exceedance_probability members (r50 th) = 5/52"
    using ne n b by (simp add: exceedance_probability_def)
  have "exceedance_probability members (r100 th) \<le> exceedance_probability members (r50 th)"
    using assms by (intro exceedance_probability_antimono) (simp add: valid_thresholds_def)
  with p50 have p100: "exceedance_probability members (r100 th) \<le> 5/52" by simp
  show "classify (1/2) th members = Inr R25"
    using assms p25 p50 p100 by (simp add: classify_def level_of_def)
qed

text \<open>The scenario of the specification: 52 members, 30 of them at or above \<open>R25\<close>, 5 at or above \<open>R50\<close>.\<close>

definition scenario_members :: "rat list" where
  "scenario_members = replicate 22 15 @ replicate 25 17 @ replicate 5 19"

theorem classify_highest_threshold_witness:
  "valid_thresholds example_thresholds \<and> length scenario_members = 52 \<and>
   exceeding scenario_members (r25 example_thresholds) = 30 \<and>
   exceeding scenario_members (r50 example_thresholds) = 5 \<and>
   classify (1/2) example_thresholds scenario_members = Inr R25"
proof -
  have v: "valid_thresholds example_thresholds"
    by (simp add: valid_thresholds_def example_thresholds_def)
  have s: "length scenario_members = 52"
    "exceeding scenario_members (r25 example_thresholds) = 30"
    "exceeding scenario_members (r50 example_thresholds) = 5"
    by (simp_all add: scenario_members_def exceeding_def example_thresholds_def)
  from classify_highest_threshold [OF v, of "1/2" scenario_members] s v
  show ?thesis by simp
qed

end
